theory Spec2Isabelle
  imports Main "HOL-Library.Word" "HOL-Library.Sublist"
begin

unbundle bit_operations_syntax

section \<open>Go values used by the package\<close>

text \<open>
  Go strings are byte sequences; \<open>string\<close> (a list of 8-bit characters) is the same
  thing. Go's \<open>int64\<close> is a 64-bit two's-complement word: \<open>+\<close> and \<open>-\<close> wrap, the
  comparisons of the source are the signed ones (\<open>word_sle\<close>, \<open>word_sless\<close>) and
  \<open>sint\<close> reads the value. Go's \<open>int\<close> is taken at its 64-bit width.
\<close>

type_synonym int64 = "64 word"
type_synonym go_int = "64 word"
type_synonym byte = "8 word"

text \<open>
  Go has one \<open>error\<close> interface; \<open>nil\<close> is \<open>None\<close> of \<open>error option\<close>. The values
  are the three package variables of the cursor (\<open>errInvalidSize\<close>,
  \<open>errSeekToInvalidWhence\<close>, \<open>errSeekToNegativePosition\<close>), \<open>io.EOF\<close>, the two
  errors of the \<open>sqlite3vfs\<close> interface that the VFS returns, and whatever an
  external collaborator (the \<open>io.ReaderAt\<close>, \<open>url.Parse\<close>, \<open>os.Open\<close>, ...)
  reports, kept by its message.
\<close>

datatype error =
    errInvalidSize
  | errSeekToInvalidWhence
  | errSeekToNegativePosition
  | io_EOF
  | CantOpenError
  | ReadOnlyError
  | external_error string

section \<open>\<open>strings.HasSuffix\<close> and \<open>strings.HasPrefix\<close>\<close>

text \<open>
  The standard library's definitions:
  \<^verbatim>\<open>len(s) >= len(suffix) && s[len(s)-len(suffix):] == suffix\<close> and
  \<^verbatim>\<open>len(s) >= len(prefix) && s[:len(prefix)] == prefix\<close>.
\<close>

definition HasSuffix :: "string \<Rightarrow> string \<Rightarrow> bool" where
  "HasSuffix s suff \<longleftrightarrow> length s \<ge> length suff \<and> drop (length s - length suff) s = suff"

definition HasPrefix :: "string \<Rightarrow> string \<Rightarrow> bool" where
  "HasPrefix s pre \<longleftrightarrow> length s \<ge> length pre \<and> take (length pre) s = pre"

section \<open>The VFS: \<open>Access\<close>\<close>

text \<open>
  \<open>sqlite3vfs.AccessFlag\<close> is an \<open>int\<close>; \<open>Access\<close> never looks at it. The Go
  function returns \<open>(bool, error)\<close>.
\<close>

type_synonym AccessFlag = go_int

definition Access :: "string \<Rightarrow> AccessFlag \<Rightarrow> bool \<times> error option" where
  "Access name flags =
     (if HasSuffix name ''-wal'' \<or> HasSuffix name ''-journal'' then (False, None)
      else (True, None))"

section \<open>The outside world of the VFS\<close>

text \<open>
  \<open>Open\<close> calls five functions of other packages: \<open>url.Parse\<close>,
  \<open>ranger.NewReader\<close>, \<open>os.Open\<close>, \<open>zstd.NewReader\<close> and
  \<open>seekable.NewReader\<close>. What they return is not decided by this package, so the
  world carries one answer function for each (the error, or the value), and a log of
  the calls made so far, in order. The values they hand back are opaque handles.
\<close>

datatype URL = URL string
datatype ranger_Reader = ranger_Reader nat
datatype os_File = os_File nat
datatype zstd_Decoder = zstd_Decoder nat
datatype seekable_Reader = seekable_Reader nat

text \<open>
  The local variable \<open>reader\<close> of \<open>Open\<close> is an \<open>io.ReadSeeker\<close> holding either the
  HTTP range reader or the opened file; \<open>closer\<close> is an \<open>io.Closer\<close>, either
  \<open>io.NopCloser(reader)\<close> or the file itself (\<open>reader.(io.Closer)\<close>, an assertion
  that holds for every \<open>*os.File\<close>).
\<close>

datatype io_ReadSeeker = RangerReader ranger_Reader | FileReader os_File
datatype io_Closer = NopCloser io_ReadSeeker | FileCloser os_File

datatype call =
    url_Parse_call string
  | ranger_NewReader_call URL
  | os_Open_call string
  | zstd_NewReader_call
  | seekable_NewReader_call io_ReadSeeker zstd_Decoder

record world =
  url_Parse :: "string \<Rightarrow> error + URL"
  ranger_NewReader :: "URL \<Rightarrow> error + ranger_Reader"
  os_Open :: "string \<Rightarrow> error + os_File"
  zstd_NewReader :: "error + zstd_Decoder"
  seekable_NewReader :: "io_ReadSeeker \<Rightarrow> zstd_Decoder \<Rightarrow> error + seekable_Reader"
  calls :: "call list"

definition logged :: "call \<Rightarrow> world \<Rightarrow> world" where
  "logged c w = w\<lparr>calls := calls w @ [c]\<rparr>"

section \<open>The VFS: \<open>Delete\<close> and \<open>Open\<close>\<close>

text \<open>
  \<open>Delete\<close> is the single statement \<^verbatim>\<open>return sqlite3vfs.ReadOnlyError\<close>: it calls
  nothing, so the world it returns is the one it was given.
\<close>

definition Delete :: "world \<Rightarrow> string \<Rightarrow> bool \<Rightarrow> world \<times> error" where
  "Delete w name dirSync = (w, ReadOnlyError)"

text \<open>
  \<open>sqlite3vfs.OpenFlag\<close> is an \<open>int\<close> of bit flags, and
  \<open>sqlite3vfs.OpenReadOnly\<close> is \<open>SQLITE_OPEN_READONLY\<close>, bit 0. The struct
  \<open>ZstdFile\<close> has the three fields that the literal in \<open>Open\<close> sets.
\<close>

type_synonym OpenFlag = go_int

definition OpenReadOnly :: OpenFlag where
  "OpenReadOnly = 1"

record ZstdFile =
  decoder :: zstd_Decoder
  closer :: io_Closer
  seekable :: seekable_Reader

text \<open>
  \<open>Open\<close> returns \<open>(sqlite3vfs.File, sqlite3vfs.OpenFlag, error)\<close>; the model adds
  the world after the call. Every early return of the source is
  \<^verbatim>\<open>return nil, 0, sqlite3vfs.CantOpenError\<close>. \<open>Open_finish\<close> is the part of the
  function after the \<open>if\<close>/\<open>else\<close> that builds \<open>reader\<close> and \<open>closer\<close>
  (the decoder, the seekable reader, the final return).
\<close>

type_synonym Open_result = "world \<times> ZstdFile option \<times> OpenFlag \<times> error option"

definition Open_finish :: "world \<Rightarrow> io_ReadSeeker \<Rightarrow> io_Closer \<Rightarrow> OpenFlag \<Rightarrow> Open_result" where
  "Open_finish w reader cl flags =
     (let w1 = logged zstd_NewReader_call w in
      case zstd_NewReader w of
        Inl err \<Rightarrow> (w1, None, 0, Some CantOpenError)
      | Inr dec \<Rightarrow>
          (let w2 = logged (seekable_NewReader_call reader dec) w1 in
           case seekable_NewReader w reader dec of
             Inl err \<Rightarrow> (w2, None, 0, Some CantOpenError)
           | Inr sk \<Rightarrow>
               (w2, Some \<lparr>decoder = dec, closer = cl, seekable = sk\<rparr>,
                flags OR OpenReadOnly, None)))"

definition Open :: "world \<Rightarrow> string \<Rightarrow> OpenFlag \<Rightarrow> Open_result" where
  "Open w name flags =
     (if HasPrefix name ''http://'' \<or> HasPrefix name ''https://'' then
        (let w1 = logged (url_Parse_call name) w in
         case url_Parse w name of
           Inl err \<Rightarrow> (w1, None, 0, Some CantOpenError)
         | Inr uri \<Rightarrow>
             (let w2 = logged (ranger_NewReader_call uri) w1 in
              case ranger_NewReader w uri of
                Inl err \<Rightarrow> (w2, None, 0, Some CantOpenError)
              | Inr rd \<Rightarrow> Open_finish w2 (RangerReader rd) (NopCloser (RangerReader rd)) flags))
      else
        (let w1 = logged (os_Open_call name) w in
         case os_Open w name of
           Inl err \<Rightarrow> (w1, None, 0, Some CantOpenError)
         | Inr f \<Rightarrow> Open_finish w1 (FileReader f) (FileCloser f) flags))"

section \<open>The cursor over an \<open>io.ReaderAt\<close>: \<open>ReadSeeker\<close>\<close>

text \<open>
  The struct has the fields \<open>ReaderAt\<close>, \<open>Size\<close> and the unexported \<open>offset\<close>.
  The \<open>io.ReaderAt\<close> is an interface value supplied by the caller: its \<open>ReadAt\<close> is
  given the slice and the position and answers with a count and an error. What it
  stores in the slice is its own business; \<open>Read\<close> never looks at the contents, only
  at the length of the slice and at the two values returned.
\<close>

record ReadSeeker =
  ReaderAt :: "byte list \<Rightarrow> int64 \<Rightarrow> go_int \<times> error option"
  Size :: int64
  offset :: int64

text \<open>
  \<open>Read\<close> returns \<open>(int, error)\<close> and updates \<open>r.offset\<close>; the model returns the
  cursor after the call as well. The test \<^verbatim>\<open>int64(len(p)) > length\<close> compares the
  length of the slice, a number below \<open>2 ^ 63\<close> for every Go slice, with the signed
  value of \<open>length\<close>; \<^verbatim>\<open>p[:length]\<close> keeps the first \<open>length\<close> bytes.
  \<open>Read_slice\<close> is the value of \<open>p\<close> after line 56 of the source.
\<close>

definition Read_slice :: "ReadSeeker \<Rightarrow> byte list \<Rightarrow> byte list" where
  "Read_slice r p =
     (let len = Size r - offset r in
      if int (length p) > sint len then take (nat (sint len)) p else p)"

definition Read :: "ReadSeeker \<Rightarrow> byte list \<Rightarrow> ReadSeeker \<times> go_int \<times> error option" where
  "Read r p =
     (if Size r <s 0 then (r, 0, Some errInvalidSize)
      else if Size r \<le>s offset r then (r, 0, Some io_EOF)
      else
        (let p' = Read_slice r p in
         if length p' = 0 then (r, 0, None)
         else
           (case ReaderAt r p' (offset r) of
              (actual, err) \<Rightarrow>
                (let r' = r\<lparr>offset := offset r + actual\<rparr> in
                 (r', actual,
                  if err = None \<and> offset r' = Size r' then Some io_EOF else err)))))"

text \<open>The three bases of \<open>io.Seeker\<close>: \<open>io.SeekStart\<close>, \<open>io.SeekCurrent\<close>, \<open>io.SeekEnd\<close>.\<close>

definition SeekStart :: go_int where
  "SeekStart = 0"

definition SeekCurrent :: go_int where
  "SeekCurrent = 1"

definition SeekEnd :: go_int where
  "SeekEnd = 2"

text \<open>
  \<open>Seek\<close> returns \<open>(int64, error)\<close> and, when it succeeds, updates \<open>r.offset\<close>. The
  \<open>switch\<close> either yields the new value of the local \<open>offset\<close> or returns early
  with \<open>errSeekToInvalidWhence\<close>. The additions are \<open>int64\<close> additions.
\<close>

definition Seek :: "ReadSeeker \<Rightarrow> int64 \<Rightarrow> go_int \<Rightarrow> ReadSeeker \<times> int64 \<times> error option" where
  "Seek r off whence =
     (if Size r <s 0 then (r, 0, Some errInvalidSize)
      else
        (case (if whence = SeekStart then Inr off
               else if whence = SeekCurrent then Inr (off + offset r)
               else if whence = SeekEnd then Inr (off + Size r)
               else Inl errSeekToInvalidWhence) of
           Inl e \<Rightarrow> (r, 0, Some e)
         | Inr off' \<Rightarrow>
             if off' <s 0 then (r, 0, Some errSeekToNegativePosition)
             else (r\<lparr>offset := off'\<rparr>, off', None)))"

text \<open>
  A consumer that calls \<open>Read\<close> again and again, each time with its next buffer:
  the list of the \<open>(int, error)\<close> pairs it is given, and the cursor at the end.
\<close>

fun Read_each :: "ReadSeeker \<Rightarrow> byte list list \<Rightarrow> ReadSeeker \<times> (go_int \<times> error option) list" where
  "Read_each r [] = (r, [])"
| "Read_each r (p # ps) =
     (case Read r p of
        (r', n, e) \<Rightarrow> (case Read_each r' ps of (r'', res) \<Rightarrow> (r'', (n, e) # res)))"

section \<open>A world for the scenarios of the test suite\<close>

text \<open>
  One compressed database exists on disk under the name \<open>test.sqlite.zst\<close> (any
  other path is missing), every URL parses and is served, the decoder and the
  seekable reader can be built, and nothing has been called yet. The scenarios in
  which a step fails are updates of this record.
\<close>

definition example_world :: world where
  "example_world =
     \<lparr>url_Parse = (\<lambda>s. Inr (URL s)),
      ranger_NewReader = (\<lambda>u. Inr (ranger_Reader 0)),
      os_Open = (\<lambda>n. if n = ''test.sqlite.zst'' then Inr (os_File 3)
                       else Inl (external_error ''no such file or directory'')),
      zstd_NewReader = Inr (zstd_Decoder 0),
      seekable_NewReader = (\<lambda>rs d. Inr (seekable_Reader 0)),
      calls = []\<rparr>"

text \<open>
  For the cursor, a \<open>ReaderAt\<close> over a resource long enough for every request: its
  \<open>ReadAt\<close> fills the slice it is given and reports no error.
\<close>

definition filling_ReaderAt :: "byte list \<Rightarrow> int64 \<Rightarrow> go_int \<times> error option" where
  "filling_ReaderAt b off = (word_of_nat (length b), None)"

section \<open>Facts about the string tests\<close>

lemma HasSuffix_iff_suffix: "HasSuffix s suff \<longleftrightarrow> suffix suff s"
proof
  assume "HasSuffix s suff"
  then have "drop (length s - length suff) s = suff"
    by (simp add: HasSuffix_def)
  then show "suffix suff s"
    by (metis suffix_drop)
next
  assume "suffix suff s"
  then obtain p where "s = p @ suff"
    by (auto simp: suffix_def)
  then show "HasSuffix s suff"
    by (simp add: HasSuffix_def)
qed

lemma HasPrefix_iff_prefix: "HasPrefix s pre \<longleftrightarrow> prefix pre s"
proof
  assume "HasPrefix s pre"
  then have "take (length pre) s = pre"
    by (simp add: HasPrefix_def)
  then show "prefix pre s"
    by (metis take_is_prefix)
next
  assume "prefix pre s"
  then obtain q where "s = pre @ q"
    by (auto simp: prefix_def)
  then show "HasPrefix s pre"
    by (simp add: HasPrefix_def)
qed

lemma suffix_last_eq:
  assumes "suffix (xs @ [a]) s" and "suffix (ys @ [b]) s"
  shows "a = b"
proof -
  from assms(1) obtain p where p: "s = p @ xs @ [a]"
    unfolding suffix_def by blast
  from assms(2) obtain q where q: "s = q @ ys @ [b]"
    unfolding suffix_def by blast
  from p q have "(p @ xs) @ [a] = (q @ ys) @ [b]"
    by simp
  then show ?thesis
    by (simp only: append1_eq_conv)
qed

lemma shm_not_wal: "suffix ''-shm'' name \<Longrightarrow> \<not> suffix ''-wal'' name"
  using suffix_last_eq [of "''-sh''" "CHR ''m''" name "''-wa''" "CHR ''l''"] by auto

lemma shm_not_journal: "suffix ''-shm'' name \<Longrightarrow> \<not> suffix ''-journal'' name"
  using suffix_last_eq [of "''-sh''" "CHR ''m''" name "''-journa''" "CHR ''l''"] by auto

section \<open>Claims about \<open>Access\<close>\<close>

text \<open>
  C4. For every name, \<open>Access name flags\<close> returns false if and only if the name ends
  in \<open>-wal\<close> or \<open>-journal\<close>, it returns true for every other name, and the error
  it returns is always nil. "Ends in" is stated with the list suffix relation, not with
  the library test the code calls.
\<close>

theorem Access_false_iff_wal_or_journal:
  "(fst (Access name flags) = False \<longleftrightarrow> (\<exists>p. name = p @ ''-wal'') \<or> (\<exists>p. name = p @ ''-journal''))
   \<and> (fst (Access name flags) = True \<longleftrightarrow> \<not> ((\<exists>p. name = p @ ''-wal'') \<or> (\<exists>p. name = p @ ''-journal'')))
   \<and> snd (Access name flags) = None"
  by (simp add: Access_def HasSuffix_iff_suffix suffix_def)

text \<open>
  C1, as stated, fails: a name ending in \<open>-shm\<close> is not covered by the test in
  \<open>Access\<close>. At the name \<open>test.db-shm\<close> (which is \<open>test.db\<close> followed by
  \<open>-shm\<close>) the operation returns true.
\<close>

theorem Access_shm_counterexample:
  "''test.db-shm'' = ''test.db'' @ ''-shm'' \<and> Access ''test.db-shm'' 0 = (True, None)"
  by (simp add: Access_def HasSuffix_def)

text \<open>
  C1, amended. For every name ending in \<open>-wal\<close> or \<open>-journal\<close>, \<open>Access\<close> returns
  false; the blackout covers these two suffixes only, and for every name ending in
  \<open>-shm\<close> it returns true.
\<close>

theorem Access_side_file_blackout:
  "(suffix ''-wal'' name \<or> suffix ''-journal'' name \<longrightarrow> Access name flags = (False, None))
   \<and> (suffix ''-shm'' name \<longrightarrow> Access name flags = (True, None))"
  using shm_not_wal [of name] shm_not_journal [of name]
  by (auto simp: Access_def HasSuffix_iff_suffix)

theorem Access_side_file_blackout_witness:
  "suffix ''-wal'' ''a.db-wal'' \<and> Access ''a.db-wal'' 1 = (False, None)
   \<and> suffix ''-journal'' ''a.db-journal'' \<and> Access ''a.db-journal'' 0 = (False, None)
   \<and> suffix ''-shm'' ''a.db-shm'' \<and> Access ''a.db-shm'' 2 = (True, None)"
proof -
  have w: "suffix ''-wal'' ''a.db-wal''"
    by (simp add: suffix_def)
  have j: "suffix ''-journal'' ''a.db-journal''"
    by (simp add: suffix_def)
  have s: "suffix ''-shm'' ''a.db-shm''"
    by (simp add: suffix_def)
  show ?thesis
    using w j s
      Access_side_file_blackout [of "''a.db-wal''" 1]
      Access_side_file_blackout [of "''a.db-journal''" 0]
      Access_side_file_blackout [of "''a.db-shm''" 2]
    by blast
qed

section \<open>Facts about \<open>Open\<close>\<close>

lemma or_and_absorb: "((a::64 word) OR b) AND b = b"
  by (simp add: bit_eq_iff bit_simps)

lemma Open_finish_outcome:
  "Open_finish w reader cl flags =
     (case zstd_NewReader w of
        Inl e \<Rightarrow> (w\<lparr>calls := calls w @ [zstd_NewReader_call]\<rparr>, None, 0, Some CantOpenError)
      | Inr dec \<Rightarrow>
          (case seekable_NewReader w reader dec of
             Inl e \<Rightarrow> (w\<lparr>calls := calls w @ [zstd_NewReader_call, seekable_NewReader_call reader dec]\<rparr>,
                        None, 0, Some CantOpenError)
           | Inr sk \<Rightarrow> (w\<lparr>calls := calls w @ [zstd_NewReader_call, seekable_NewReader_call reader dec]\<rparr>,
                        Some \<lparr>decoder = dec, closer = cl, seekable = sk\<rparr>, flags OR OpenReadOnly, None)))"
  by (simp add: Open_finish_def logged_def Let_def split: sum.splits)

lemma Open_http:
  assumes "prefix ''http://'' name \<or> prefix ''https://'' name"
  shows "Open w name flags =
     (case url_Parse w name of
        Inl e \<Rightarrow> (w\<lparr>calls := calls w @ [url_Parse_call name]\<rparr>, None, 0, Some CantOpenError)
      | Inr uri \<Rightarrow>
          (case ranger_NewReader w uri of
             Inl e \<Rightarrow> (w\<lparr>calls := calls w @ [url_Parse_call name, ranger_NewReader_call uri]\<rparr>,
                        None, 0, Some CantOpenError)
           | Inr rd \<Rightarrow>
               Open_finish (w\<lparr>calls := calls w @ [url_Parse_call name, ranger_NewReader_call uri]\<rparr>)
                 (RangerReader rd) (NopCloser (RangerReader rd)) flags))"
  using assms
  by (simp add: Open_def HasPrefix_iff_prefix logged_def Let_def split: sum.splits)

lemma Open_local:
  assumes "\<not> (prefix ''http://'' name \<or> prefix ''https://'' name)"
  shows "Open w name flags =
     (case os_Open w name of
        Inl e \<Rightarrow> (w\<lparr>calls := calls w @ [os_Open_call name]\<rparr>, None, 0, Some CantOpenError)
      | Inr f \<Rightarrow>
          Open_finish (w\<lparr>calls := calls w @ [os_Open_call name]\<rparr>)
            (FileReader f) (FileCloser f) flags)"
  using assms
  by (simp add: Open_def HasPrefix_iff_prefix logged_def Let_def split: sum.splits)

lemma Open_example_local:
  "Open example_world ''test.sqlite.zst'' flags =
     (example_world\<lparr>calls := [os_Open_call ''test.sqlite.zst'', zstd_NewReader_call,
          seekable_NewReader_call (FileReader (os_File 3)) (zstd_Decoder 0)]\<rparr>,
      Some \<lparr>decoder = zstd_Decoder 0, closer = FileCloser (os_File 3), seekable = seekable_Reader 0\<rparr>,
      flags OR OpenReadOnly, None)"
proof -
  have "\<not> (prefix ''http://'' ''test.sqlite.zst'' \<or> prefix ''https://'' ''test.sqlite.zst'')"
    by simp
  from Open_local [OF this] show ?thesis
    by (simp add: Open_finish_outcome example_world_def)
qed

section \<open>Claims about \<open>Delete\<close> and \<open>Open\<close>\<close>

text \<open>
  C8. For every name and every \<open>dirSync\<close>, \<open>Delete\<close> returns the read-only error and
  changes nothing: the world after the call, with its log of calls to other
  packages, is the world before it.
\<close>

theorem Delete_read_only: "Delete w name dirSync = (w, ReadOnlyError)"
  by (simp add: Delete_def)

text \<open>
  C2. For every name and every requested flag set, an \<open>Open\<close> that succeeds (its
  error is nil) returns the requested flags with \<open>OpenReadOnly\<close> or-ed in, so the
  read-only bit is set in what it returns, and it returns a file.
\<close>

theorem Open_success_read_only:
  assumes "Open w name flags = (w', fo, fl, None)"
  shows "fl = flags OR OpenReadOnly \<and> fl AND OpenReadOnly = OpenReadOnly \<and> fo \<noteq> None"
  using assms
  by (auto simp: Open_def Open_finish_outcome Let_def or_and_absorb split: if_splits sum.splits)

theorem Open_success_read_only_witness:
  "Open example_world ''test.sqlite.zst'' 6 =
     (example_world\<lparr>calls := [os_Open_call ''test.sqlite.zst'', zstd_NewReader_call,
          seekable_NewReader_call (FileReader (os_File 3)) (zstd_Decoder 0)]\<rparr>,
      Some \<lparr>decoder = zstd_Decoder 0, closer = FileCloser (os_File 3), seekable = seekable_Reader 0\<rparr>,
      7, None)
   \<and> (7 :: OpenFlag) = 6 OR OpenReadOnly \<and> (7 :: OpenFlag) AND OpenReadOnly = OpenReadOnly"
proof -
  have h: "Open example_world ''test.sqlite.zst'' 6 =
     (example_world\<lparr>calls := [os_Open_call ''test.sqlite.zst'', zstd_NewReader_call,
          seekable_NewReader_call (FileReader (os_File 3)) (zstd_Decoder 0)]\<rparr>,
      Some \<lparr>decoder = zstd_Decoder 0, closer = FileCloser (os_File 3), seekable = seekable_Reader 0\<rparr>,
      7, None)"
    by (simp add: Open_example_local OpenReadOnly_def)
  from Open_success_read_only [OF h] h show ?thesis
    by blast
qed

text \<open>
  C3. \<open>Open\<close> selects the source by scheme. If the name begins with \<open>http://\<close> or
  \<open>https://\<close>, the first thing it does is parse the name as a URL, and it never
  opens a local file; every file it returns is closed by a no-op closer over an HTTP
  range reader for the parsed URL, and its seekable reader was built over that range
  reader and the file's decoder. For every other name the first thing it does is
  \<open>os.Open\<close> of the name, it never parses a URL or builds a range reader, and every
  file it returns is closed by closing that local file and reads through a seekable
  reader built over it. In both cases, when the source, the decoder and the seekable
  reader can be built, \<open>Open\<close> returns the \<open>ZstdFile\<close> made of them.
\<close>

theorem Open_selects_source_by_scheme:
  "(prefix ''http://'' name \<or> prefix ''https://'' name \<longrightarrow>
      (\<exists>cs. calls (fst (Open w name flags)) = calls w @ url_Parse_call name # cs
            \<and> (\<forall>n. os_Open_call n \<notin> set cs))
      \<and> (\<forall>w' zf fl e. Open w name flags = (w', Some zf, fl, e) \<longrightarrow>
            (\<exists>uri rd. url_Parse w name = Inr uri \<and> ranger_NewReader w uri = Inr rd
               \<and> zstd_NewReader w = Inr (decoder zf)
               \<and> seekable_NewReader w (RangerReader rd) (decoder zf) = Inr (seekable zf)
               \<and> closer zf = NopCloser (RangerReader rd)
               \<and> calls w' = calls w @ [url_Parse_call name, ranger_NewReader_call uri,
                    zstd_NewReader_call, seekable_NewReader_call (RangerReader rd) (decoder zf)]))
      \<and> (\<forall>uri rd dec sk. url_Parse w name = Inr uri \<and> ranger_NewReader w uri = Inr rd
            \<and> zstd_NewReader w = Inr dec \<and> seekable_NewReader w (RangerReader rd) dec = Inr sk \<longrightarrow>
            snd (Open w name flags) =
              (Some \<lparr>decoder = dec, closer = NopCloser (RangerReader rd), seekable = sk\<rparr>,
               flags OR OpenReadOnly, None)))
   \<and> (\<not> (prefix ''http://'' name \<or> prefix ''https://'' name) \<longrightarrow>
      (\<exists>cs. calls (fst (Open w name flags)) = calls w @ os_Open_call name # cs
            \<and> (\<forall>s. url_Parse_call s \<notin> set cs) \<and> (\<forall>u. ranger_NewReader_call u \<notin> set cs))
      \<and> (\<forall>w' zf fl e. Open w name flags = (w', Some zf, fl, e) \<longrightarrow>
            (\<exists>f. os_Open w name = Inr f
               \<and> zstd_NewReader w = Inr (decoder zf)
               \<and> seekable_NewReader w (FileReader f) (decoder zf) = Inr (seekable zf)
               \<and> closer zf = FileCloser f
               \<and> calls w' = calls w @ [os_Open_call name,
                    zstd_NewReader_call, seekable_NewReader_call (FileReader f) (decoder zf)]))
      \<and> (\<forall>f dec sk. os_Open w name = Inr f
            \<and> zstd_NewReader w = Inr dec \<and> seekable_NewReader w (FileReader f) dec = Inr sk \<longrightarrow>
            snd (Open w name flags) =
              (Some \<lparr>decoder = dec, closer = FileCloser f, seekable = sk\<rparr>,
               flags OR OpenReadOnly, None)))"
proof (cases "prefix ''http://'' name \<or> prefix ''https://'' name")
  case True
  show ?thesis
    using True
    by (auto simp: Open_http [OF True] Open_finish_outcome split: sum.splits)
next
  case False
  show ?thesis
    using False
    by (auto simp: Open_local [OF False] Open_finish_outcome split: sum.splits)
qed

theorem Open_selects_source_by_scheme_witness:
  "prefix ''https://'' ''https://example.org/test.sqlite.zst''
   \<and> snd (Open example_world ''https://example.org/test.sqlite.zst'' 1) =
       (Some \<lparr>decoder = zstd_Decoder 0, closer = NopCloser (RangerReader (ranger_Reader 0)),
              seekable = seekable_Reader 0\<rparr>, 1 OR OpenReadOnly, None)
   \<and> \<not> (prefix ''http://'' ''test.sqlite.zst'' \<or> prefix ''https://'' ''test.sqlite.zst'')
   \<and> snd (Open example_world ''test.sqlite.zst'' 1) =
       (Some \<lparr>decoder = zstd_Decoder 0, closer = FileCloser (os_File 3),
              seekable = seekable_Reader 0\<rparr>, 1 OR OpenReadOnly, None)"
proof -
  have remote: "prefix ''https://'' ''https://example.org/test.sqlite.zst''"
    by simp
  have local: "\<not> (prefix ''http://'' ''test.sqlite.zst'' \<or> prefix ''https://'' ''test.sqlite.zst'')"
    by simp
  have steps_remote:
    "url_Parse example_world ''https://example.org/test.sqlite.zst'' =
       Inr (URL ''https://example.org/test.sqlite.zst'')
     \<and> ranger_NewReader example_world (URL ''https://example.org/test.sqlite.zst'') =
       Inr (ranger_Reader 0)
     \<and> zstd_NewReader example_world = Inr (zstd_Decoder 0)
     \<and> seekable_NewReader example_world (RangerReader (ranger_Reader 0)) (zstd_Decoder 0) =
       Inr (seekable_Reader 0)"
    by (simp add: example_world_def)
  have steps_local:
    "os_Open example_world ''test.sqlite.zst'' = Inr (os_File 3)
     \<and> zstd_NewReader example_world = Inr (zstd_Decoder 0)
     \<and> seekable_NewReader example_world (FileReader (os_File 3)) (zstd_Decoder 0) =
       Inr (seekable_Reader 0)"
    by (simp add: example_world_def)
  note by_scheme_remote =
    Open_selects_source_by_scheme [of "''https://example.org/test.sqlite.zst''" example_world 1,
      THEN conjunct1, THEN mp, OF disjI2, OF remote]
  note by_scheme_local =
    Open_selects_source_by_scheme [of "''test.sqlite.zst''" example_world 1,
      THEN conjunct2, THEN mp, OF local]
  have r: "snd (Open example_world ''https://example.org/test.sqlite.zst'' 1) =
       (Some \<lparr>decoder = zstd_Decoder 0, closer = NopCloser (RangerReader (ranger_Reader 0)),
              seekable = seekable_Reader 0\<rparr>, 1 OR OpenReadOnly, None)"
    by (rule by_scheme_remote [THEN conjunct2, THEN conjunct2, rule_format, OF steps_remote])
  have l: "snd (Open example_world ''test.sqlite.zst'' 1) =
       (Some \<lparr>decoder = zstd_Decoder 0, closer = FileCloser (os_File 3),
              seekable = seekable_Reader 0\<rparr>, 1 OR OpenReadOnly, None)"
    by (rule by_scheme_local [THEN conjunct2, THEN conjunct2, rule_format, OF steps_local])
  from remote local r l show ?thesis
    by (intro conjI)
qed

text \<open>
  C9. Whenever a step of \<open>Open\<close> fails, \<open>Open\<close> returns no file, the flags \<open>0\<close> and
  \<open>CantOpenError\<close>: when the name is a URL and \<open>url.Parse\<close> fails; when the URL
  parses and \<open>ranger.NewReader\<close> fails; when the name is a path and \<open>os.Open\<close> fails;
  when \<open>zstd.NewReader\<close> fails; and when the source and the decoder were built and
  \<open>seekable.NewReader\<close> over them fails. There is no third outcome: \<open>Open\<close> returns
  either a file with a nil error or no file with \<open>CantOpenError\<close>.
\<close>

theorem Open_failure_CantOpen:
  "(\<forall>e. (prefix ''http://'' name \<or> prefix ''https://'' name) \<and> url_Parse w name = Inl e \<longrightarrow>
        snd (Open w name flags) = (None, 0, Some CantOpenError))
   \<and> (\<forall>uri e. (prefix ''http://'' name \<or> prefix ''https://'' name) \<and> url_Parse w name = Inr uri
        \<and> ranger_NewReader w uri = Inl e \<longrightarrow>
        snd (Open w name flags) = (None, 0, Some CantOpenError))
   \<and> (\<forall>e. \<not> (prefix ''http://'' name \<or> prefix ''https://'' name) \<and> os_Open w name = Inl e \<longrightarrow>
        snd (Open w name flags) = (None, 0, Some CantOpenError))
   \<and> (\<forall>e. zstd_NewReader w = Inl e \<longrightarrow>
        snd (Open w name flags) = (None, 0, Some CantOpenError))
   \<and> (\<forall>reader dec e.
        ((prefix ''http://'' name \<or> prefix ''https://'' name)
           \<and> (\<exists>uri rd. url_Parse w name = Inr uri \<and> ranger_NewReader w uri = Inr rd
                 \<and> reader = RangerReader rd)
         \<or> \<not> (prefix ''http://'' name \<or> prefix ''https://'' name)
           \<and> (\<exists>f. os_Open w name = Inr f \<and> reader = FileReader f))
        \<and> zstd_NewReader w = Inr dec \<and> seekable_NewReader w reader dec = Inl e \<longrightarrow>
        snd (Open w name flags) = (None, 0, Some CantOpenError))
   \<and> ((\<exists>zf. snd (Open w name flags) = (Some zf, flags OR OpenReadOnly, None))
        \<or> snd (Open w name flags) = (None, 0, Some CantOpenError))"
proof (cases "prefix ''http://'' name \<or> prefix ''https://'' name")
  case True
  show ?thesis
    using True
    by (auto simp: Open_http [OF True] Open_finish_outcome split: sum.splits)
next
  case False
  show ?thesis
    using False
    by (auto simp: Open_local [OF False] Open_finish_outcome split: sum.splits)
qed

theorem Open_failure_CantOpen_witness:
  "snd (Open (example_world\<lparr>url_Parse := (\<lambda>s. Inl (external_error ''invalid URL''))\<rparr>)
          ''http://[::1'' 1) = (None, 0, Some CantOpenError)
   \<and> snd (Open (example_world\<lparr>ranger_NewReader := (\<lambda>u. Inl (external_error ''connection refused''))\<rparr>)
          ''http://127.0.0.1/test.sqlite.zst'' 1) = (None, 0, Some CantOpenError)
   \<and> snd (Open example_world ''missing.sqlite.zst'' 1) = (None, 0, Some CantOpenError)
   \<and> snd (Open (example_world\<lparr>zstd_NewReader := Inl (external_error ''out of memory'')\<rparr>)
          ''test.sqlite.zst'' 1) = (None, 0, Some CantOpenError)
   \<and> snd (Open (example_world\<lparr>seekable_NewReader := (\<lambda>rs d. Inl (external_error ''bad seek table''))\<rparr>)
          ''test.sqlite.zst'' 1) = (None, 0, Some CantOpenError)"
proof -
  let ?w1 = "example_world\<lparr>url_Parse := (\<lambda>s. Inl (external_error ''invalid URL''))\<rparr>"
  let ?w2 = "example_world\<lparr>ranger_NewReader := (\<lambda>u. Inl (external_error ''connection refused''))\<rparr>"
  let ?w4 = "example_world\<lparr>zstd_NewReader := Inl (external_error ''out of memory'')\<rparr>"
  let ?w5 = "example_world\<lparr>seekable_NewReader := (\<lambda>rs d. Inl (external_error ''bad seek table''))\<rparr>"
  have h1: "(prefix ''http://'' ''http://[::1'' \<or> prefix ''https://'' ''http://[::1'')
      \<and> url_Parse ?w1 ''http://[::1'' = Inl (external_error ''invalid URL'')"
    by simp
  have h2: "(prefix ''http://'' ''http://127.0.0.1/test.sqlite.zst''
        \<or> prefix ''https://'' ''http://127.0.0.1/test.sqlite.zst'')
      \<and> url_Parse ?w2 ''http://127.0.0.1/test.sqlite.zst'' = Inr (URL ''http://127.0.0.1/test.sqlite.zst'')
      \<and> ranger_NewReader ?w2 (URL ''http://127.0.0.1/test.sqlite.zst'') =
          Inl (external_error ''connection refused'')"
    by (simp add: example_world_def)
  have h3: "\<not> (prefix ''http://'' ''missing.sqlite.zst'' \<or> prefix ''https://'' ''missing.sqlite.zst'')
      \<and> os_Open example_world ''missing.sqlite.zst'' = Inl (external_error ''no such file or directory'')"
    by (simp add: example_world_def)
  have h4: "zstd_NewReader ?w4 = Inl (external_error ''out of memory'')"
    by simp
  have h5: "((prefix ''http://'' ''test.sqlite.zst'' \<or> prefix ''https://'' ''test.sqlite.zst'')
           \<and> (\<exists>uri rd. url_Parse ?w5 ''test.sqlite.zst'' = Inr uri \<and> ranger_NewReader ?w5 uri = Inr rd
                 \<and> FileReader (os_File 3) = RangerReader rd)
         \<or> \<not> (prefix ''http://'' ''test.sqlite.zst'' \<or> prefix ''https://'' ''test.sqlite.zst'')
           \<and> (\<exists>f. os_Open ?w5 ''test.sqlite.zst'' = Inr f \<and> FileReader (os_File 3) = FileReader f))
      \<and> zstd_NewReader ?w5 = Inr (zstd_Decoder 0)
      \<and> seekable_NewReader ?w5 (FileReader (os_File 3)) (zstd_Decoder 0) =
          Inl (external_error ''bad seek table'')"
    by (simp add: example_world_def)
  have c1: "snd (Open ?w1 ''http://[::1'' 1) = (None, 0, Some CantOpenError)"
    by (rule Open_failure_CantOpen [of "''http://[::1''" ?w1 1,
          THEN conjunct1, rule_format, OF h1])
  have c2: "snd (Open ?w2 ''http://127.0.0.1/test.sqlite.zst'' 1) = (None, 0, Some CantOpenError)"
    by (rule Open_failure_CantOpen [of "''http://127.0.0.1/test.sqlite.zst''" ?w2 1,
          THEN conjunct2, THEN conjunct1, rule_format, OF h2])
  have c3: "snd (Open example_world ''missing.sqlite.zst'' 1) = (None, 0, Some CantOpenError)"
    by (rule Open_failure_CantOpen [of "''missing.sqlite.zst''" example_world 1,
          THEN conjunct2, THEN conjunct2, THEN conjunct1, rule_format, OF h3])
  have c4: "snd (Open ?w4 ''test.sqlite.zst'' 1) = (None, 0, Some CantOpenError)"
    by (rule Open_failure_CantOpen [of "''test.sqlite.zst''" ?w4 1,
          THEN conjunct2, THEN conjunct2, THEN conjunct2, THEN conjunct1, rule_format, OF h4])
  have c5: "snd (Open ?w5 ''test.sqlite.zst'' 1) = (None, 0, Some CantOpenError)"
    by (rule Open_failure_CantOpen [of "''test.sqlite.zst''" ?w5 1,
          THEN conjunct2, THEN conjunct2, THEN conjunct2, THEN conjunct2, THEN conjunct1,
          rule_format, OF h5])
  from c1 c2 c3 c4 c5 show ?thesis
    by (intro conjI)
qed

section \<open>Facts about \<open>int64\<close>\<close>

lemma sint_add_in_range:
  fixes a b :: int64
  assumes "- (2 ^ 63) \<le> sint a + sint b" and "sint a + sint b < 2 ^ 63"
  shows "sint (a + b) = sint a + sint b"
  using assms by (simp add: sint_word_ariths signed_take_bit_int_eq_self)

lemma sint_sub_in_range:
  fixes a b :: int64
  assumes "- (2 ^ 63) \<le> sint a - sint b" and "sint a - sint b < 2 ^ 63"
  shows "sint (a - b) = sint a - sint b"
  using assms by (simp add: sint_word_ariths signed_take_bit_int_eq_self)

lemma sint_bounds64:
  fixes a :: int64
  shows "- (2 ^ 63) \<le> sint a" and "sint a < 2 ^ 63"
  using sint_ge [of a] sint_lt [of a] by simp_all

section \<open>Facts about the cursor\<close>

text \<open>Inside the resource the remaining length does not overflow.\<close>

lemma sint_remaining:
  assumes "0 \<le>s offset r" and "offset r <s Size r"
  shows "sint (Size r - offset r) = sint (Size r) - sint (offset r)"
proof -
  have "0 \<le> sint (offset r)" and "sint (offset r) < sint (Size r)"
    using assms by (simp_all add: word_sle_eq word_sless_alt)
  then show ?thesis
    using sint_bounds64 [of "Size r"] by (intro sint_sub_in_range) linarith+
qed

lemma length_Read_slice:
  assumes "0 \<le>s offset r" and "offset r <s Size r"
  shows "int (length (Read_slice r p)) = min (int (length p)) (sint (Size r) - sint (offset r))"
proof -
  have pos: "0 < sint (Size r) - sint (offset r)"
    using assms by (simp add: word_sless_alt)
  show ?thesis
    using pos by (auto simp: Read_slice_def Let_def sint_remaining [OF assms])
qed

lemma Read_inside:
  assumes "\<not> Size r <s 0" and "\<not> Size r \<le>s offset r" and "Read_slice r p \<noteq> []"
    and "ReaderAt r (Read_slice r p) (offset r) = (n, e)"
  shows "Read r p = (r\<lparr>offset := offset r + n\<rparr>, n,
                     if e = None \<and> offset r + n = Size r then Some io_EOF else e)"
  using assms by (simp add: Read_def Let_def)

lemma Read_each_past_end:
  assumes "0 \<le>s Size r" and "Size r \<le>s offset r"
  shows "Read_each r ps = (r, replicate (length ps) (0, Some io_EOF))"
proof (induction ps)
  case Nil
  show ?case by simp
next
  case (Cons p ps)
  have "\<not> Size r <s 0"
    using assms(1) by (simp add: word_sle_eq word_sless_alt)
  then have "Read r p = (r, 0, Some io_EOF)"
    using assms(2) by (simp add: Read_def)
  with Cons show ?case by simp
qed

text \<open>
  The offset of a cursor is never negative: it starts at \<open>0\<close>, and \<open>Seek\<close> stores only
  offsets that passed its test. (\<open>Read\<close> adds the count of the \<open>ReadAt\<close>, which is
  not negative; see \<open>Read_offset_nonneg\<close> below.)
\<close>

lemma Seek_offset_nonneg:
  assumes "0 \<le>s offset r" and "Seek r off whence = (r', n, e)"
  shows "0 \<le>s offset r'"
  using assms
  by (auto simp: Seek_def word_sle_eq word_sless_alt split: if_splits sum.splits)

text \<open>
  The additions of \<open>Seek\<close> are \<open>int64\<close> additions: from offset \<open>5\<close>, a relative seek by
  the largest \<open>int64\<close> wraps to a negative number and is refused as a negative position.
\<close>

lemma Seek_current_wraps:
  "Seek \<lparr>ReaderAt = ra, Size = 10, offset = 5\<rparr> 0x7FFFFFFFFFFFFFFF SeekCurrent =
     (\<lparr>ReaderAt = ra, Size = 10, offset = 5\<rparr>, 0, Some errSeekToNegativePosition)"
  by (simp add: Seek_def SeekCurrent_def SeekStart_def word_sless_alt)

section \<open>Claims about the cursor\<close>

text \<open>
  C5. For every cursor with a non-negative \<open>Size\<close> whose offset is at or past
  \<open>Size\<close>, \<open>Read\<close> returns the count \<open>0\<close> together with \<open>io.EOF\<close> and leaves the
  cursor as it was. Seeking past the end is permitted: for each of the three bases, a
  \<open>Seek\<close> whose target \<open>t\<close> is at or past \<open>Size\<close> succeeds and returns \<open>t\<close>, and from
  then on every \<open>Read\<close>, whatever the buffers, returns \<open>0\<close> and \<open>io.EOF\<close>.
\<close>

theorem Read_at_or_past_end:
  "(0 \<le>s Size r \<and> Size r \<le>s offset r \<longrightarrow> Read r p = (r, 0, Some io_EOF))
   \<and> (0 \<le>s Size r \<and> Size r \<le>s t
        \<and> (whence = SeekStart \<and> t = off \<or> whence = SeekCurrent \<and> t = off + offset r
             \<or> whence = SeekEnd \<and> t = off + Size r) \<longrightarrow>
        Seek r off whence = (r\<lparr>offset := t\<rparr>, t, None)
        \<and> Read_each (r\<lparr>offset := t\<rparr>) ps = (r\<lparr>offset := t\<rparr>, replicate (length ps) (0, Some io_EOF)))"
proof (intro conjI impI)
  assume "0 \<le>s Size r \<and> Size r \<le>s offset r"
  then show "Read r p = (r, 0, Some io_EOF)"
    by (simp add: Read_def word_sle_eq word_sless_alt)
next
  assume h: "0 \<le>s Size r \<and> Size r \<le>s t
        \<and> (whence = SeekStart \<and> t = off \<or> whence = SeekCurrent \<and> t = off + offset r
             \<or> whence = SeekEnd \<and> t = off + Size r)"
  then have nn: "\<not> Size r <s 0" "\<not> t <s 0"
    by (simp_all add: word_sle_eq word_sless_alt)
  from h nn show "Seek r off whence = (r\<lparr>offset := t\<rparr>, t, None)"
    by (auto simp: Seek_def SeekStart_def SeekCurrent_def SeekEnd_def)
next
  assume h: "0 \<le>s Size r \<and> Size r \<le>s t
        \<and> (whence = SeekStart \<and> t = off \<or> whence = SeekCurrent \<and> t = off + offset r
             \<or> whence = SeekEnd \<and> t = off + Size r)"
  then show "Read_each (r\<lparr>offset := t\<rparr>) ps = (r\<lparr>offset := t\<rparr>, replicate (length ps) (0, Some io_EOF))"
    by (intro Read_each_past_end) simp_all
qed

theorem Read_at_or_past_end_witness:
  "Read \<lparr>ReaderAt = filling_ReaderAt, Size = 10, offset = 10\<rparr> [1, 2, 3, 4] =
     (\<lparr>ReaderAt = filling_ReaderAt, Size = 10, offset = 10\<rparr>, 0, Some io_EOF)
   \<and> Seek \<lparr>ReaderAt = filling_ReaderAt, Size = 10, offset = 3\<rparr> 5 SeekEnd =
     (\<lparr>ReaderAt = filling_ReaderAt, Size = 10, offset = 15\<rparr>, 15, None)
   \<and> Read_each \<lparr>ReaderAt = filling_ReaderAt, Size = 10, offset = 15\<rparr> [[0, 0], [0]] =
     (\<lparr>ReaderAt = filling_ReaderAt, Size = 10, offset = 15\<rparr>, [(0, Some io_EOF), (0, Some io_EOF)])"
proof -
  let ?r = "\<lparr>ReaderAt = filling_ReaderAt, Size = 10, offset = 10\<rparr>"
  let ?q = "\<lparr>ReaderAt = filling_ReaderAt, Size = 10, offset = 3\<rparr>"
  have h1: "0 \<le>s Size ?r \<and> Size ?r \<le>s offset ?r"
    by (simp add: word_sle_eq)
  have h2: "0 \<le>s Size ?q \<and> Size ?q \<le>s 15
      \<and> (SeekEnd = SeekStart \<and> 15 = (5::int64) \<or> SeekEnd = SeekCurrent \<and> 15 = 5 + offset ?q
           \<or> SeekEnd = SeekEnd \<and> 15 = 5 + Size ?q)"
    by (simp add: word_sle_eq)
  have a: "Read ?r [1, 2, 3, 4] = (?r, 0, Some io_EOF)"
    by (rule Read_at_or_past_end [of ?r "[1, 2, 3, 4]", THEN conjunct1, rule_format, OF h1])
  have b: "Seek ?q 5 SeekEnd = (?q\<lparr>offset := 15\<rparr>, 15, None)
      \<and> Read_each (?q\<lparr>offset := 15\<rparr>) [[0, 0], [0]] =
          (?q\<lparr>offset := 15\<rparr>, replicate (length [[0, 0], [0::byte]]) (0, Some io_EOF))"
    by (rule Read_at_or_past_end [of ?q _ 15 SeekEnd 5 "[[0, 0], [0]]", THEN conjunct2, rule_format, OF h2])
  from a b show ?thesis
    by (simp add: numeral_2_eq_2)
qed

text \<open>
  C6. For every cursor with a non-negative \<open>Size\<close>, \<open>Seek\<close> supports exactly the three
  bases: from the start the new offset is the argument, from the current position it
  is the argument plus the offset, from the end it is the argument plus \<open>Size\<close>; when
  the new offset is not negative it is stored and returned, when it is negative the
  cursor is left alone and \<open>errSeekToNegativePosition\<close> is returned, and every other
  \<open>whence\<close> returns \<open>errSeekToInvalidWhence\<close>. The sums are the \<open>int64\<close> sums of the
  source; whenever the sum of the two signed values fits in an \<open>int64\<close> it is that
  sum which is returned (when it is not negative) or refused (when it is).
\<close>

theorem Seek_bases:
  assumes "0 \<le>s Size r"
  shows
  "(whence = SeekStart \<and> \<not> off <s 0 \<longrightarrow> Seek r off whence = (r\<lparr>offset := off\<rparr>, off, None))
   \<and> (whence = SeekCurrent \<and> \<not> off + offset r <s 0 \<longrightarrow>
        Seek r off whence = (r\<lparr>offset := off + offset r\<rparr>, off + offset r, None))
   \<and> (whence = SeekEnd \<and> \<not> off + Size r <s 0 \<longrightarrow>
        Seek r off whence = (r\<lparr>offset := off + Size r\<rparr>, off + Size r, None))
   \<and> (whence = SeekStart \<and> off <s 0 \<or> whence = SeekCurrent \<and> off + offset r <s 0
        \<or> whence = SeekEnd \<and> off + Size r <s 0 \<longrightarrow>
        Seek r off whence = (r, 0, Some errSeekToNegativePosition))
   \<and> (whence \<noteq> SeekStart \<and> whence \<noteq> SeekCurrent \<and> whence \<noteq> SeekEnd \<longrightarrow>
        Seek r off whence = (r, 0, Some errSeekToInvalidWhence))
   \<and> (whence = SeekCurrent \<and> 0 \<le> sint off + sint (offset r)
        \<and> sint off + sint (offset r) < 2 ^ 63 \<longrightarrow>
        (\<exists>n. Seek r off whence = (r\<lparr>offset := n\<rparr>, n, None)
             \<and> sint n = sint off + sint (offset r)))
   \<and> (whence = SeekEnd \<and> 0 \<le> sint off + sint (Size r)
        \<and> sint off + sint (Size r) < 2 ^ 63 \<longrightarrow>
        (\<exists>n. Seek r off whence = (r\<lparr>offset := n\<rparr>, n, None)
             \<and> sint n = sint off + sint (Size r)))
   \<and> (whence = SeekCurrent \<and> - (2 ^ 63) \<le> sint off + sint (offset r)
        \<and> sint off + sint (offset r) < 0
        \<or> whence = SeekEnd \<and> - (2 ^ 63) \<le> sint off + sint (Size r)
        \<and> sint off + sint (Size r) < 0 \<longrightarrow>
        Seek r off whence = (r, 0, Some errSeekToNegativePosition))"
proof -
  have nn: "\<not> Size r <s 0"
    using assms by (simp add: word_sle_eq word_sless_alt)
  have cur: "- (2 ^ 63) \<le> sint off + sint (offset r) \<Longrightarrow> sint off + sint (offset r) < 2 ^ 63 \<Longrightarrow>
      sint (off + offset r) = sint off + sint (offset r)"
    by (rule sint_add_in_range)
  have en: "- (2 ^ 63) \<le> sint off + sint (Size r) \<Longrightarrow> sint off + sint (Size r) < 2 ^ 63 \<Longrightarrow>
      sint (off + Size r) = sint off + sint (Size r)"
    by (rule sint_add_in_range)
  have distinct: "SeekStart \<noteq> SeekCurrent" "SeekStart \<noteq> SeekEnd" "SeekCurrent \<noteq> SeekEnd"
    by (simp_all add: SeekStart_def SeekCurrent_def SeekEnd_def)
  have 1: "whence = SeekStart \<and> \<not> off <s 0 \<longrightarrow> Seek r off whence = (r\<lparr>offset := off\<rparr>, off, None)"
    using nn by (simp add: Seek_def)
  have 2: "whence = SeekCurrent \<and> \<not> off + offset r <s 0 \<longrightarrow>
        Seek r off whence = (r\<lparr>offset := off + offset r\<rparr>, off + offset r, None)"
    using nn distinct by (auto simp: Seek_def)
  have 3: "whence = SeekEnd \<and> \<not> off + Size r <s 0 \<longrightarrow>
        Seek r off whence = (r\<lparr>offset := off + Size r\<rparr>, off + Size r, None)"
    using nn distinct by (auto simp: Seek_def)
  have 4: "whence = SeekStart \<and> off <s 0 \<or> whence = SeekCurrent \<and> off + offset r <s 0
        \<or> whence = SeekEnd \<and> off + Size r <s 0 \<longrightarrow>
        Seek r off whence = (r, 0, Some errSeekToNegativePosition)"
    using nn distinct by (auto simp: Seek_def)
  have 5: "whence \<noteq> SeekStart \<and> whence \<noteq> SeekCurrent \<and> whence \<noteq> SeekEnd \<longrightarrow>
        Seek r off whence = (r, 0, Some errSeekToInvalidWhence)"
    using nn by (simp add: Seek_def)
  have 6: "whence = SeekCurrent \<and> 0 \<le> sint off + sint (offset r)
        \<and> sint off + sint (offset r) < 2 ^ 63 \<longrightarrow>
        (\<exists>n. Seek r off whence = (r\<lparr>offset := n\<rparr>, n, None)
             \<and> sint n = sint off + sint (offset r))"
  proof
    assume h: "whence = SeekCurrent \<and> 0 \<le> sint off + sint (offset r)
        \<and> sint off + sint (offset r) < 2 ^ 63"
    then have s: "sint (off + offset r) = sint off + sint (offset r)"
      by (intro cur) simp_all
    with h have "\<not> off + offset r <s 0"
      by (simp add: word_sless_alt)
    with 2 h s show "\<exists>n. Seek r off whence = (r\<lparr>offset := n\<rparr>, n, None)
             \<and> sint n = sint off + sint (offset r)"
      by blast
  qed
  have 7: "whence = SeekEnd \<and> 0 \<le> sint off + sint (Size r)
        \<and> sint off + sint (Size r) < 2 ^ 63 \<longrightarrow>
        (\<exists>n. Seek r off whence = (r\<lparr>offset := n\<rparr>, n, None)
             \<and> sint n = sint off + sint (Size r))"
  proof
    assume h: "whence = SeekEnd \<and> 0 \<le> sint off + sint (Size r)
        \<and> sint off + sint (Size r) < 2 ^ 63"
    then have s: "sint (off + Size r) = sint off + sint (Size r)"
      by (intro en) simp_all
    with h have "\<not> off + Size r <s 0"
      by (simp add: word_sless_alt)
    with 3 h s show "\<exists>n. Seek r off whence = (r\<lparr>offset := n\<rparr>, n, None)
             \<and> sint n = sint off + sint (Size r)"
      by blast
  qed
  have 8: "whence = SeekCurrent \<and> - (2 ^ 63) \<le> sint off + sint (offset r)
        \<and> sint off + sint (offset r) < 0
        \<or> whence = SeekEnd \<and> - (2 ^ 63) \<le> sint off + sint (Size r)
        \<and> sint off + sint (Size r) < 0 \<longrightarrow>
        Seek r off whence = (r, 0, Some errSeekToNegativePosition)"
  proof
    assume h: "whence = SeekCurrent \<and> - (2 ^ 63) \<le> sint off + sint (offset r)
        \<and> sint off + sint (offset r) < 0
        \<or> whence = SeekEnd \<and> - (2 ^ 63) \<le> sint off + sint (Size r)
        \<and> sint off + sint (Size r) < 0"
    then have "whence = SeekCurrent \<and> off + offset r <s 0 \<or> whence = SeekEnd \<and> off + Size r <s 0"
      using cur en by (auto simp: word_sless_alt)
    with 4 show "Seek r off whence = (r, 0, Some errSeekToNegativePosition)"
      by blast
  qed
  from 1 2 3 4 5 6 7 8 show ?thesis
    by (intro conjI)
qed

theorem Seek_bases_witness:
  "0 \<le>s (10 :: int64)
   \<and> Seek \<lparr>ReaderAt = filling_ReaderAt, Size = 10, offset = 3\<rparr> 4 SeekStart =
       (\<lparr>ReaderAt = filling_ReaderAt, Size = 10, offset = 4\<rparr>, 4, None)
   \<and> Seek \<lparr>ReaderAt = filling_ReaderAt, Size = 10, offset = 3\<rparr> 4 SeekCurrent =
       (\<lparr>ReaderAt = filling_ReaderAt, Size = 10, offset = 7\<rparr>, 7, None)
   \<and> Seek \<lparr>ReaderAt = filling_ReaderAt, Size = 10, offset = 3\<rparr> (- 2) SeekEnd =
       (\<lparr>ReaderAt = filling_ReaderAt, Size = 10, offset = 8\<rparr>, 8, None)
   \<and> Seek \<lparr>ReaderAt = filling_ReaderAt, Size = 10, offset = 3\<rparr> (- 4) SeekCurrent =
       (\<lparr>ReaderAt = filling_ReaderAt, Size = 10, offset = 3\<rparr>, 0, Some errSeekToNegativePosition)
   \<and> Seek \<lparr>ReaderAt = filling_ReaderAt, Size = 10, offset = 3\<rparr> 0 3 =
       (\<lparr>ReaderAt = filling_ReaderAt, Size = 10, offset = 3\<rparr>, 0, Some errSeekToInvalidWhence)"
proof -
  let ?r = "\<lparr>ReaderAt = filling_ReaderAt, Size = 10, offset = 3\<rparr>"
  have h: "0 \<le>s Size ?r"
    by (simp add: word_sle_eq)
  have a: "Seek ?r 4 SeekStart = (?r\<lparr>offset := 4\<rparr>, 4, None)"
    by (rule Seek_bases [OF h, of SeekStart 4, THEN conjunct1, rule_format])
      (simp add: word_sless_alt)
  have b: "Seek ?r 4 SeekCurrent = (?r\<lparr>offset := 4 + offset ?r\<rparr>, 4 + offset ?r, None)"
    by (rule Seek_bases [OF h, of SeekCurrent 4, THEN conjunct2, THEN conjunct1, rule_format])
      (simp add: word_sless_alt)
  have c: "Seek ?r (- 2) SeekEnd = (?r\<lparr>offset := - 2 + Size ?r\<rparr>, - 2 + Size ?r, None)"
    by (rule Seek_bases [OF h, of SeekEnd "- 2", THEN conjunct2, THEN conjunct2, THEN conjunct1, rule_format])
      (simp add: word_sless_alt)
  have d: "Seek ?r (- 4) SeekCurrent = (?r, 0, Some errSeekToNegativePosition)"
    by (rule Seek_bases [OF h, of SeekCurrent "- 4",
          THEN conjunct2, THEN conjunct2, THEN conjunct2, THEN conjunct1, rule_format])
      (simp add: word_sless_alt)
  have e: "Seek ?r 0 3 = (?r, 0, Some errSeekToInvalidWhence)"
    by (rule Seek_bases [OF h, of 3 0,
          THEN conjunct2, THEN conjunct2, THEN conjunct2, THEN conjunct2, THEN conjunct1, rule_format])
      (simp add: SeekStart_def SeekCurrent_def SeekEnd_def)
  from h a b c d e show ?thesis
    by simp
qed

text \<open>
  What \<open>Read\<close> does to the offset, and what it returns when the \<open>ReadAt\<close> it calls
  keeps the contract of \<open>io.ReaderAt\<close>.
\<close>

lemma Read_offset_word:
  assumes "Read r p = (r', actual, err)"
  shows "offset r' = offset r + actual"
  using assms
  by (auto simp: Read_def Let_def split: if_splits prod.splits)

lemma Read_under_contract:
  assumes Size_nn: "0 \<le>s Size r" and offset_nn: "0 \<le>s offset r"
    and contract: "offset r <s Size r \<and> Read_slice r p \<noteq> [] \<longrightarrow>
        ReaderAt r (Read_slice r p) (offset r) = (n, e)
        \<and> 0 \<le>s n \<and> sint n \<le> int (length (Read_slice r p))
        \<and> (sint n = int (length (Read_slice r p)) \<or> e \<noteq> None)"
    and Read: "Read r p = (r', actual, err)"
  shows "sint (offset r') = sint (offset r) + sint actual
    \<and> 0 \<le> sint actual \<and> sint actual \<le> int (length p)
    \<and> (actual \<noteq> 0 \<longrightarrow> sint (offset r') \<le> sint (Size r))
    \<and> (offset r <s Size r \<and> sint (Size r) < sint (offset r) + int (length p) \<longrightarrow>
          sint (offset r) + int (length (Read_slice r p)) = sint (Size r)
          \<and> Read_slice r p = take (nat (sint (Size r) - sint (offset r))) p)
    \<and> (sint actual < int (length p) \<longrightarrow>
          err = Some io_EOF \<and> Size r \<le>s offset r' \<or> e \<noteq> None \<and> err = e)"
proof (cases "Size r \<le>s offset r")
  case True
  have "\<not> Size r <s 0"
    using Size_nn by (simp add: word_sle_eq word_sless_alt)
  then have "Read r p = (r, 0, Some io_EOF)"
    using True by (simp add: Read_def)
  with Read have "r' = r" "actual = 0" "err = Some io_EOF"
    by simp_all
  with True show ?thesis
    by (simp add: word_sless_alt word_sle_eq)
next
  case False
  then have inside: "offset r <s Size r"
    by (simp add: word_sle_eq word_sless_alt)
  have nneg: "\<not> Size r <s 0"
    using Size_nn by (simp add: word_sle_eq word_sless_alt)
  have o0: "0 \<le> sint (offset r)"
    using offset_nn by (simp add: word_sle_eq)
  have lt: "sint (offset r) < sint (Size r)"
    using inside by (simp add: word_sless_alt)
  have len: "int (length (Read_slice r p)) = min (int (length p)) (sint (Size r) - sint (offset r))"
    by (rule length_Read_slice [OF offset_nn inside])
  have trunc: "offset r <s Size r \<and> sint (Size r) < sint (offset r) + int (length p) \<longrightarrow>
      sint (offset r) + int (length (Read_slice r p)) = sint (Size r)
      \<and> Read_slice r p = take (nat (sint (Size r) - sint (offset r))) p"
  proof
    assume "offset r <s Size r \<and> sint (Size r) < sint (offset r) + int (length p)"
    then have over: "sint (Size r) - sint (offset r) < int (length p)"
      by linarith
    then have "int (length (Read_slice r p)) = sint (Size r) - sint (offset r)"
      using len by simp
    moreover have "Read_slice r p = take (nat (sint (Size r) - sint (offset r))) p"
      using over by (simp add: Read_slice_def Let_def sint_remaining [OF offset_nn inside])
    ultimately show "sint (offset r) + int (length (Read_slice r p)) = sint (Size r)
      \<and> Read_slice r p = take (nat (sint (Size r) - sint (offset r))) p"
      by simp
  qed
  show ?thesis
  proof (cases "Read_slice r p = []")
    case True
    then have "Read r p = (r, 0, None)"
      using nneg False by (simp add: Read_def Let_def)
    with Read have res: "r' = r" "actual = 0" "err = None"
      by simp_all
    from True len lt have "length p = 0"
      by (simp add: min_def split: if_splits)
    with res lt trunc show ?thesis
      by simp
  next
    case nonempty: False
    from contract inside nonempty
    have ReadAt: "ReaderAt r (Read_slice r p) (offset r) = (n, e)"
      and n_range: "0 \<le>s n" "sint n \<le> int (length (Read_slice r p))"
      and n_short: "sint n = int (length (Read_slice r p)) \<or> e \<noteq> None"
      by simp_all
    have res: "r' = r\<lparr>offset := offset r + n\<rparr>" "actual = n"
      "err = (if e = None \<and> offset r + n = Size r then Some io_EOF else e)"
      using Read_inside [OF nneg False nonempty ReadAt] Read by simp_all
    have n0: "0 \<le> sint n"
      using n_range(1) by (simp add: word_sle_eq)
    have nle: "sint n \<le> sint (Size r) - sint (offset r)" "sint n \<le> int (length p)"
      using n_range(2) len by simp_all
    have sum: "sint (offset r + n) = sint (offset r) + sint n"
      using o0 n0 nle sint_bounds64 [of "Size r"]
      by (intro sint_add_in_range) linarith+
    have short: "sint n < int (length p) \<longrightarrow>
        err = Some io_EOF \<and> Size r \<le>s offset r + n \<or> e \<noteq> None \<and> err = e"
    proof
      assume sh: "sint n < int (length p)"
      show "err = Some io_EOF \<and> Size r \<le>s offset r + n \<or> e \<noteq> None \<and> err = e"
      proof (cases "e = None")
        case True
        with n_short have full: "sint n = int (length (Read_slice r p))"
          by simp
        with sh len have "sint n = sint (Size r) - sint (offset r)"
          by (simp add: min_def split: if_splits)
        with sum have "sint (offset r + n) = sint (Size r)"
          by simp
        then have "offset r + n = Size r"
          by (rule signed_word_eqI)
        with True res(3) show ?thesis
          by (simp add: word_sle_eq)
      next
        case False
        with res(3) show ?thesis
          by simp
      qed
    qed
    have c2: "sint (offset r') = sint (offset r) + sint actual"
      using res(1,2) sum by simp
    have c3: "0 \<le> sint actual \<and> sint actual \<le> int (length p)"
      using res(2) n0 nle(2) by simp
    have c4: "sint (offset r') \<le> sint (Size r)"
      using c2 res(2) nle(1) by simp
    have c6: "sint actual < int (length p) \<longrightarrow>
        err = Some io_EOF \<and> Size r \<le>s offset r' \<or> e \<noteq> None \<and> err = e"
      using short res(1,2) by simp
    show ?thesis
      using c2 c3 c4 trunc c6 by blast
  qed
qed

text \<open>So \<open>Read\<close> keeps the offset of a cursor non-negative as well.\<close>

lemma Read_offset_nonneg:
  assumes "0 \<le>s Size r" and "0 \<le>s offset r"
    and "offset r <s Size r \<and> Read_slice r p \<noteq> [] \<longrightarrow>
        ReaderAt r (Read_slice r p) (offset r) = (n, e)
        \<and> 0 \<le>s n \<and> sint n \<le> int (length (Read_slice r p))
        \<and> (sint n = int (length (Read_slice r p)) \<or> e \<noteq> None)"
    and "Read r p = (r', actual, err)"
  shows "0 \<le>s offset r'"
proof -
  from Read_under_contract [OF assms]
  have "sint (offset r') = sint (offset r) + sint actual" and "0 \<le> sint actual"
    by simp_all
  with assms(2) show ?thesis
    by (simp add: word_sle_eq)
qed

text \<open>
  C7. Every \<open>Read\<close> advances the offset by exactly the count it returns. For a cursor
  with non-negative \<open>Size\<close> and offset whose \<open>ReadAt\<close>, when it is called, keeps the
  contract of \<open>io.ReaderAt\<close> (a count \<open>n\<close> between \<open>0\<close> and the length of the slice,
  and a non-nil error whenever \<open>n\<close> is less than that length): the advance does not
  wrap, the count is between \<open>0\<close> and the length of the buffer, a read that returns
  bytes ends at or before \<open>Size\<close>; when the offset plus the length of the buffer
  exceeds \<open>Size\<close>, the slice handed to \<open>ReadAt\<close> is the prefix of the buffer that
  ends at \<open>Size\<close>; and a read that returns fewer bytes than the buffer holds either
  ends at or past \<open>Size\<close> and carries \<open>io.EOF\<close>, or passes on the error that
  \<open>ReadAt\<close> itself reported.
\<close>

theorem Read_advances_and_stops_at_Size:
  assumes "Read r p = (r', actual, err)"
  shows "offset r' = offset r + actual
    \<and> (0 \<le>s Size r \<and> 0 \<le>s offset r
        \<and> (offset r <s Size r \<and> Read_slice r p \<noteq> [] \<longrightarrow>
              ReaderAt r (Read_slice r p) (offset r) = (n, e)
              \<and> 0 \<le>s n \<and> sint n \<le> int (length (Read_slice r p))
              \<and> (sint n = int (length (Read_slice r p)) \<or> e \<noteq> None)) \<longrightarrow>
        sint (offset r') = sint (offset r) + sint actual
        \<and> 0 \<le> sint actual \<and> sint actual \<le> int (length p)
        \<and> (actual \<noteq> 0 \<longrightarrow> sint (offset r') \<le> sint (Size r))
        \<and> (offset r <s Size r \<and> sint (Size r) < sint (offset r) + int (length p) \<longrightarrow>
              sint (offset r) + int (length (Read_slice r p)) = sint (Size r)
              \<and> Read_slice r p = take (nat (sint (Size r) - sint (offset r))) p)
        \<and> (sint actual < int (length p) \<longrightarrow>
              err = Some io_EOF \<and> Size r \<le>s offset r' \<or> e \<noteq> None \<and> err = e))"
proof (rule conjI)
  show "offset r' = offset r + actual"
    using assms by (rule Read_offset_word)
next
  let ?contract = "0 \<le>s Size r \<and> 0 \<le>s offset r
        \<and> (offset r <s Size r \<and> Read_slice r p \<noteq> [] \<longrightarrow>
              ReaderAt r (Read_slice r p) (offset r) = (n, e)
              \<and> 0 \<le>s n \<and> sint n \<le> int (length (Read_slice r p))
              \<and> (sint n = int (length (Read_slice r p)) \<or> e \<noteq> None))"
  {
    assume h: ?contract
    note Read_under_contract [OF h [THEN conjunct1] h [THEN conjunct2, THEN conjunct1]
          h [THEN conjunct2, THEN conjunct2] assms]
  }
  then show "?contract \<longrightarrow>
        sint (offset r') = sint (offset r) + sint actual
        \<and> 0 \<le> sint actual \<and> sint actual \<le> int (length p)
        \<and> (actual \<noteq> 0 \<longrightarrow> sint (offset r') \<le> sint (Size r))
        \<and> (offset r <s Size r \<and> sint (Size r) < sint (offset r) + int (length p) \<longrightarrow>
              sint (offset r) + int (length (Read_slice r p)) = sint (Size r)
              \<and> Read_slice r p = take (nat (sint (Size r) - sint (offset r))) p)
        \<and> (sint actual < int (length p) \<longrightarrow>
              err = Some io_EOF \<and> Size r \<le>s offset r' \<or> e \<noteq> None \<and> err = e)"
    by (rule impI)
qed

theorem Read_advances_and_stops_at_Size_witness:
  "Read \<lparr>ReaderAt = filling_ReaderAt, Size = 10, offset = 8\<rparr> [1, 2, 3, 4] =
     (\<lparr>ReaderAt = filling_ReaderAt, Size = 10, offset = 10\<rparr>, 2, Some io_EOF)
   \<and> Read_slice \<lparr>ReaderAt = filling_ReaderAt, Size = 10, offset = 8\<rparr> [1, 2, 3, 4] = [1, 2]
   \<and> filling_ReaderAt [1, 2] 8 = (2, None)
   \<and> (10 :: int64) = 8 + 2
   \<and> sint (10 :: int64) = sint (8 :: int64) + sint (2 :: go_int)
   \<and> sint (2 :: go_int) < int (length [1, 2, 3, 4 :: byte])
   \<and> (10 :: int64) \<le>s 10"
proof -
  let ?r = "\<lparr>ReaderAt = filling_ReaderAt, Size = 10, offset = 8\<rparr>"
  let ?r' = "\<lparr>ReaderAt = filling_ReaderAt, Size = 10, offset = 10\<rparr>"
  have slice: "Read_slice ?r [1, 2, 3, 4] = [1, 2]"
    by (simp add: Read_slice_def)
  have at: "filling_ReaderAt [1, 2] 8 = (2, None)"
    by (simp add: filling_ReaderAt_def)
  have h: "Read ?r [1, 2, 3, 4] = (?r', 2, Some io_EOF)"
    by (simp add: Read_def slice at word_sle_eq word_sless_alt)
  have contract: "0 \<le>s Size ?r \<and> 0 \<le>s offset ?r
        \<and> (offset ?r <s Size ?r \<and> Read_slice ?r [1, 2, 3, 4] \<noteq> [] \<longrightarrow>
              ReaderAt ?r (Read_slice ?r [1, 2, 3, 4]) (offset ?r) = (2, None)
              \<and> 0 \<le>s (2 :: go_int) \<and> sint (2 :: go_int) \<le> int (length (Read_slice ?r [1, 2, 3, 4]))
              \<and> (sint (2 :: go_int) = int (length (Read_slice ?r [1, 2, 3, 4])) \<or> None \<noteq> (None :: error option)))"
    by (simp add: slice at word_sle_eq word_sless_alt)
  note T = Read_advances_and_stops_at_Size [OF h, where n = 2 and e = None]
  note U = T [THEN conjunct2, THEN mp, OF contract]
  have short: "sint (2 :: go_int) < int (length [1, 2, 3, 4 :: byte])"
    by simp
  have a: "offset ?r' = offset ?r + 2"
    by (rule T [THEN conjunct1])
  have b: "sint (offset ?r') = sint (offset ?r) + sint (2 :: go_int)"
    by (rule U [THEN conjunct1])
  have c: "Some io_EOF = Some io_EOF \<and> Size ?r \<le>s offset ?r'
      \<or> None \<noteq> (None :: error option) \<and> Some io_EOF = None"
    by (rule U [THEN conjunct2, THEN conjunct2, THEN conjunct2, THEN conjunct2, THEN conjunct2,
          THEN mp, OF short])
  from h slice at a b short c show ?thesis
    by simp
qed

text \<open>
  C10. When \<open>Read\<close> calls \<open>ReadAt\<close> (non-negative \<open>Size\<close>, offset before \<open>Size\<close>, a
  slice that is not empty), \<open>ReadAt\<close> reports no error and the advanced offset equals
  \<open>Size\<close>, that same call returns the count of the final bytes together with
  \<open>io.EOF\<close>, and the cursor is left at \<open>Size\<close>.
\<close>

theorem Read_EOF_with_final_bytes:
  assumes "0 \<le>s Size r" and "offset r <s Size r" and "Read_slice r p \<noteq> []"
    and "ReaderAt r (Read_slice r p) (offset r) = (actual, None)"
    and "offset r + actual = Size r"
  shows "Read r p = (r\<lparr>offset := Size r\<rparr>, actual, Some io_EOF)"
proof -
  have "\<not> Size r <s 0" and "\<not> Size r \<le>s offset r"
    using assms(1,2) by (simp_all add: word_sle_eq word_sless_alt)
  from Read_inside [OF this assms(3,4)] assms(5) show ?thesis
    by simp
qed

theorem Read_EOF_with_final_bytes_witness:
  "Read_slice \<lparr>ReaderAt = filling_ReaderAt, Size = 6, offset = 2\<rparr> [1, 2, 3, 4] = [1, 2, 3, 4]
   \<and> filling_ReaderAt [1, 2, 3, 4] 2 = (4, None)
   \<and> (2 :: int64) + 4 = 6
   \<and> Read \<lparr>ReaderAt = filling_ReaderAt, Size = 6, offset = 2\<rparr> [1, 2, 3, 4] =
       (\<lparr>ReaderAt = filling_ReaderAt, Size = 6, offset = 6\<rparr>, 4, Some io_EOF)"
proof -
  let ?r = "\<lparr>ReaderAt = filling_ReaderAt, Size = 6, offset = 2\<rparr>"
  have slice: "Read_slice ?r [1, 2, 3, 4] = [1, 2, 3, 4]"
    by (simp add: Read_slice_def)
  have at: "filling_ReaderAt [1, 2, 3, 4] 2 = (4, None)"
    by (simp add: filling_ReaderAt_def)
  have h1: "0 \<le>s Size ?r" and h2: "offset ?r <s Size ?r"
    by (simp_all add: word_sle_eq word_sless_alt)
  have h3: "Read_slice ?r [1, 2, 3, 4] \<noteq> []"
    by (simp add: slice)
  have h4: "ReaderAt ?r (Read_slice ?r [1, 2, 3, 4]) (offset ?r) = (4, None)"
    by (simp add: slice at)
  have h5: "offset ?r + 4 = Size ?r"
    by simp
  from Read_EOF_with_final_bytes [OF h1 h2 h3 h4 h5] slice at show ?thesis
    by simp
qed


end
